theory Spec2Isabelle
  imports Complex_Main "HOL-Library.Sublist"
begin

section \<open>jsfuzzymind: fuzzy sets, fuzzy rules and the inference engine\<close>

text \<open>
  A shallow embedding of \<^verbatim>\<open>src/index.cjs\<close>. The three classes become records, the
  closures they hold become HOL functions, and every method becomes a function of the
  same name that takes the receiver as its first argument.

  Numbers. The source computes with JavaScript numbers, that is, with doubles: sums round,
  \<^verbatim>\<open>x += step\<close> can leave \<open>x\<close> unchanged, a division by zero gives an infinity or
  \<^verbatim>\<open>NaN\<close>, and \<^verbatim>\<open>NaN === NaN\<close> is false. No law of real arithmetic is therefore built
  into the model. Every function takes the arithmetic as its first argument: a record of the
  operations the source uses, over a type \<open>'n\<close> of numbers. A theorem about an arbitrary
  arithmetic holds for the doubles of the source; where a theorem needs a fact about the
  arithmetic, the fact is a hypothesis.

  Loops. \<^verbatim>\<open>for (let x = min; x <= max; x += step)\<close> need not end, so the loop returns an
  option and \<open>None\<close> stands for a run that never returns.
\<close>

subsection \<open>The arithmetic\<close>

text \<open>
  \<open>flit\<close> is the value of a decimal literal of the source (\<^verbatim>\<open>0.01\<close> is \<open>flit A 0.01\<close>);
  \<open>fmax\<close> and \<open>fmin\<close> are \<^verbatim>\<open>Math.max\<close> and \<^verbatim>\<open>Math.min\<close>; \<open>flt\<close>, \<open>fle\<close>,
  \<open>fgt\<close>, \<open>fge\<close> and \<open>feq\<close> are \<^verbatim>\<open><\<close>, \<^verbatim>\<open><=\<close>, \<^verbatim>\<open>>\<close>, \<^verbatim>\<open>>=\<close> and \<^verbatim>\<open>===\<close>.
\<close>

record 'n arith =
  flit :: "real \<Rightarrow> 'n"
  fadd :: "'n \<Rightarrow> 'n \<Rightarrow> 'n"
  fsub :: "'n \<Rightarrow> 'n \<Rightarrow> 'n"
  fmul :: "'n \<Rightarrow> 'n \<Rightarrow> 'n"
  fdiv :: "'n \<Rightarrow> 'n \<Rightarrow> 'n"
  fmax :: "'n \<Rightarrow> 'n \<Rightarrow> 'n"
  fmin :: "'n \<Rightarrow> 'n \<Rightarrow> 'n"
  flt :: "'n \<Rightarrow> 'n \<Rightarrow> bool"
  fle :: "'n \<Rightarrow> 'n \<Rightarrow> bool"
  fgt :: "'n \<Rightarrow> 'n \<Rightarrow> bool"
  fge :: "'n \<Rightarrow> 'n \<Rightarrow> bool"
  feq :: "'n \<Rightarrow> 'n \<Rightarrow> bool"

text \<open>
  The arithmetic of the real numbers, without rounding. It agrees with the doubles wherever
  every operand and every result is a double, as on small integers and their halves.
\<close>

definition exact :: "real arith" where
  "exact =
     \<lparr> flit = (\<lambda>r. r), fadd = (+), fsub = (-), fmul = (*), fdiv = (/),
       fmax = max, fmin = min,
       flt = (<), fle = (\<le>), fgt = (\<lambda>a b. b < a), fge = (\<lambda>a b. b \<le> a), feq = (=) \<rparr>"

text \<open>
  An arithmetic with a value that is not a number: \<open>None\<close>. A division by zero gives it,
  every operation hands it on and every comparison with it is false.
\<close>

definition lift2 :: "(real \<Rightarrow> real \<Rightarrow> real) \<Rightarrow> real option \<Rightarrow> real option \<Rightarrow> real option" where
  "lift2 f a b = (case (a, b) of (Some x, Some y) \<Rightarrow> Some (f x y) | _ \<Rightarrow> None)"

definition cmp2 :: "(real \<Rightarrow> real \<Rightarrow> bool) \<Rightarrow> real option \<Rightarrow> real option \<Rightarrow> bool" where
  "cmp2 p a b = (case (a, b) of (Some x, Some y) \<Rightarrow> p x y | _ \<Rightarrow> False)"

definition checked :: "real option arith" where
  "checked =
     \<lparr> flit = Some, fadd = lift2 (+), fsub = lift2 (-), fmul = lift2 (*),
       fdiv = (\<lambda>a b. if b = Some 0 then None else lift2 (/) a b),
       fmax = lift2 max, fmin = lift2 min,
       flt = cmp2 (<), fle = cmp2 (\<le>), fgt = cmp2 (\<lambda>a b. b < a),
       fge = cmp2 (\<lambda>a b. b \<le> a), feq = cmp2 (=) \<rparr>"

subsection \<open>FuzzySet\<close>

record 'n FuzzySet =
  name :: string
  membershipFunction :: "'n \<Rightarrow> 'n"

definition membershipDegree :: "'n FuzzySet \<Rightarrow> 'n \<Rightarrow> 'n" where
  "membershipDegree this x = membershipFunction this x"

definition union_fuzzy :: "'n arith \<Rightarrow> 'n FuzzySet \<Rightarrow> 'n FuzzySet \<Rightarrow> 'n FuzzySet" where
  "union_fuzzy A this otherSet =
     \<lparr> name = ''Union('' @ name this @ '', '' @ name otherSet @ '')'',
       membershipFunction =
         (\<lambda>x. fmax A (membershipFunction this x) (membershipFunction otherSet x)) \<rparr>"

definition intersection :: "'n arith \<Rightarrow> 'n FuzzySet \<Rightarrow> 'n FuzzySet \<Rightarrow> 'n FuzzySet" where
  "intersection A this otherSet =
     \<lparr> name = ''Intersection('' @ name this @ '', '' @ name otherSet @ '')'',
       membershipFunction =
         (\<lambda>x. fmin A (membershipFunction this x) (membershipFunction otherSet x)) \<rparr>"

definition complement :: "'n arith \<Rightarrow> 'n FuzzySet \<Rightarrow> 'n FuzzySet" where
  "complement A this =
     \<lparr> name = ''Complement('' @ name this @ '')'',
       membershipFunction = (\<lambda>x. fsub A (flit A 1) (membershipFunction this x)) \<rparr>"

definition normalize :: "'n arith \<Rightarrow> 'n FuzzySet \<Rightarrow> 'n FuzzySet" where
  "normalize A this =
     \<lparr> name = ''Normalized('' @ name this @ '')'',
       membershipFunction =
         (\<lambda>x. fdiv A (membershipFunction this x)
                  (fmax A (flit A 1) (membershipFunction this x))) \<rparr>"

subsection \<open>The sampling loop\<close>

text \<open>
  All five loops of the source have the header
  \<^verbatim>\<open>for (let x = min; x <= max; x += step)\<close>. The body maps the loop variable and the
  local variables to their new values and says whether the loop goes on or leaves through
  \<^verbatim>\<open>break\<close>. A run that never leaves the loop is \<open>None\<close>.
\<close>

datatype 's ctl = Continue 's | Break 's

partial_function (option) for_loop ::
  "'n arith \<Rightarrow> ('n \<Rightarrow> 's \<Rightarrow> 's ctl) \<Rightarrow> 'n \<Rightarrow> 'n \<Rightarrow> 'n \<Rightarrow> 's \<Rightarrow> 's option" where
  "for_loop A body x mx step s =
     (if fle A x mx
      then (case body x s of
              Continue s' \<Rightarrow> for_loop A body (fadd A x step) mx step s'
            | Break s' \<Rightarrow> Some s')
      else Some s)"

declare for_loop.simps [code]

text \<open>The default value of the parameter \<^verbatim>\<open>step = 0.01\<close>: \<open>None\<close> is an omitted argument.\<close>

definition step_or_default :: "'n arith \<Rightarrow> 'n option \<Rightarrow> 'n" where
  "step_or_default A step = (case step of None \<Rightarrow> flit A 0.01 | Some s \<Rightarrow> s)"

definition centroid :: "'n arith \<Rightarrow> 'n FuzzySet \<Rightarrow> 'n \<Rightarrow> 'n \<Rightarrow> 'n option \<Rightarrow> 'n option" where
  "centroid A this mn mx step =
     (case for_loop A
             (\<lambda>x (numerator, denominator).
                let mu = membershipFunction this x
                in Continue (fadd A numerator (fmul A x mu), fadd A denominator mu))
             mn mx (step_or_default A step) (flit A 0, flit A 0) of
        None \<Rightarrow> None
      | Some (numerator, denominator) \<Rightarrow>
          Some (if feq A denominator (flit A 0) then flit A 0
                else fdiv A numerator denominator))"

subsection \<open>FuzzyRule\<close>

text \<open>
  A consequence is a FuzzySet instance or a function of the inputs. What such a function
  returns is not constrained: a string label, a FuzzySet or any other value.
\<close>

datatype 'n outcome = Label string | SetValue "'n FuzzySet" | OtherValue

datatype ('n, 'i) consequence = FixedSet "'n FuzzySet" | Computed "'i \<Rightarrow> 'n outcome"

record ('n, 'i) FuzzyRule =
  condition :: "'i \<Rightarrow> bool"
  consequence :: "('n, 'i) consequence"
  weight :: 'n

text \<open>The constructor, with the default \<^verbatim>\<open>weight = 1\<close>.\<close>

definition new_FuzzyRule ::
  "'n arith \<Rightarrow> ('i \<Rightarrow> bool) \<Rightarrow> ('n, 'i) consequence \<Rightarrow> 'n option \<Rightarrow> ('n, 'i) FuzzyRule" where
  "new_FuzzyRule A cond cons w =
     \<lparr> condition = cond, consequence = cons,
       weight = (case w of None \<Rightarrow> flit A 1 | Some v \<Rightarrow> v) \<rparr>"

fun instanceof_FuzzySet :: "('n, 'i) consequence \<Rightarrow> bool" where
  "instanceof_FuzzySet (FixedSet _) = True"
| "instanceof_FuzzySet (Computed _) = False"

text \<open>\<^verbatim>\<open>evaluate\<close> returns the pair \<^verbatim>\<open>{ result, weight }\<close>, or \<open>None\<close> for \<^verbatim>\<open>null\<close>.\<close>

definition evaluate :: "('n, 'i) FuzzyRule \<Rightarrow> 'i \<Rightarrow> ('n outcome \<times> 'n) option" where
  "evaluate this inputs =
     (if condition this inputs
      then let result = (case consequence this of
                           FixedSet fuzzySet \<Rightarrow> SetValue fuzzySet
                         | Computed f \<Rightarrow> f inputs)
           in Some (result, weight this)
      else None)"

subsection \<open>InferenceEngine\<close>

record ('n, 'i) InferenceEngine =
  rules :: "('n, 'i) FuzzyRule list"

definition priorityMapping :: "'n arith \<Rightarrow> 'n outcome \<Rightarrow> 'n" where
  "priorityMapping A priority =
     (case priority of
        Label l \<Rightarrow>
          (if l = ''Urgent'' then flit A 3
           else if l = ''High Priority'' then flit A 2
           else if l = ''Medium Priority'' then flit A 1
           else flit A 0)
      | _ \<Rightarrow> flit A 0)"

definition reversePriorityMapping :: "'n arith \<Rightarrow> 'n \<Rightarrow> string" where
  "reversePriorityMapping A score =
     (if fge A score (flit A 2.5) then ''Urgent''
      else if fge A score (flit A 1.5) then ''High Priority''
      else if fge A score (flit A 0.5) then ''Medium Priority''
      else ''Low Priority'')"

definition aggregateResults :: "'n arith \<Rightarrow> ('n outcome \<times> 'n) list \<Rightarrow> string" where
  "aggregateResults A results =
     (if length results = 0 then ''Low Priority''
      else
        let (weightedSum, totalWeight) =
              fold (\<lambda>(result, weight) (weightedSum, totalWeight).
                      (fadd A weightedSum (fmul A (priorityMapping A result) weight),
                       fadd A totalWeight weight))
                   results (flit A 0, flit A 0)
        in if fgt A totalWeight (flit A 0)
           then reversePriorityMapping A (fdiv A weightedSum totalWeight)
           else ''Low Priority'')"

definition infer :: "'n arith \<Rightarrow> ('n, 'i) InferenceEngine \<Rightarrow> 'i \<Rightarrow> string" where
  "infer A this inputs =
     aggregateResults A
       (fold (\<lambda>rule results.
                case evaluate rule inputs of
                  Some evaluation \<Rightarrow> results @ [evaluation]
                | None \<Rightarrow> results)
             (rules this) [])"

definition getFuzzySetConsequences :: "('n, 'i) InferenceEngine \<Rightarrow> 'n FuzzySet list" where
  "getFuzzySetConsequences this =
     [fuzzySet. FixedSet fuzzySet \<leftarrow> map consequence (rules this)]"

text \<open>
  The inner loop of the three defuzzifiers:
  \<^verbatim>\<open>let mu = 0; for (const fuzzySet of fuzzySets) mu = Math.max(mu, fuzzySet.membershipFunction(x))\<close>.
\<close>

definition aggregate :: "'n arith \<Rightarrow> 'n FuzzySet list \<Rightarrow> 'n \<Rightarrow> 'n" where
  "aggregate A fuzzySets x =
     fold (\<lambda>fuzzySet mu. fmax A mu (membershipFunction fuzzySet x)) fuzzySets (flit A 0)"

definition defuzzifyCentroid ::
  "'n arith \<Rightarrow> ('n, 'i) InferenceEngine \<Rightarrow> 'n \<Rightarrow> 'n \<Rightarrow> 'n option \<Rightarrow> 'n option" where
  "defuzzifyCentroid A this mn mx step =
     (let fuzzySets = getFuzzySetConsequences this
      in case for_loop A
                (\<lambda>x (numerator, denominator).
                   let mu = aggregate A fuzzySets x
                   in Continue (fadd A numerator (fmul A x mu), fadd A denominator mu))
                mn mx (step_or_default A step) (flit A 0, flit A 0) of
           None \<Rightarrow> None
         | Some (numerator, denominator) \<Rightarrow>
             Some (if feq A denominator (flit A 0) then flit A 0
                   else fdiv A numerator denominator))"

definition defuzzifyMOM ::
  "'n arith \<Rightarrow> ('n, 'i) InferenceEngine \<Rightarrow> 'n \<Rightarrow> 'n \<Rightarrow> 'n option \<Rightarrow> 'n option" where
  "defuzzifyMOM A this mn mx step =
     (let fuzzySets = getFuzzySetConsequences this
      in case for_loop A
                (\<lambda>x (maxMu, sumX, count).
                   let mu = aggregate A fuzzySets x
                   in Continue (if fgt A mu maxMu then (mu, x, flit A 1)
                                else if feq A mu maxMu
                                     then (maxMu, fadd A sumX x, fadd A count (flit A 1))
                                     else (maxMu, sumX, count)))
                mn mx (step_or_default A step) (flit A 0, flit A 0, flit A 0) of
           None \<Rightarrow> None
         | Some (maxMu, sumX, count) \<Rightarrow>
             Some (if feq A count (flit A 0) then flit A 0 else fdiv A sumX count))"

definition defuzzifyBisector ::
  "'n arith \<Rightarrow> ('n, 'i) InferenceEngine \<Rightarrow> 'n \<Rightarrow> 'n \<Rightarrow> 'n option \<Rightarrow> 'n option" where
  "defuzzifyBisector A this mn mx step =
     (let fuzzySets = getFuzzySetConsequences this
      in case for_loop A
                (\<lambda>x totalArea.
                   let mu = aggregate A fuzzySets x
                   in Continue (fadd A totalArea (fmul A mu (step_or_default A step))))
                mn mx (step_or_default A step) (flit A 0) of
           None \<Rightarrow> None
         | Some totalArea \<Rightarrow>
             (case for_loop A
                     (\<lambda>x (leftArea, bisector).
                        let mu = aggregate A fuzzySets x;
                            leftArea = fadd A leftArea (fmul A mu (step_or_default A step))
                        in if fge A leftArea (fdiv A totalArea (flit A 2))
                           then Break (leftArea, x)
                           else Continue (leftArea, bisector))
                     mn mx (step_or_default A step) (flit A 0, mn) of
                None \<Rightarrow> None
              | Some (leftArea, bisector) \<Rightarrow> Some bisector))"

subsection \<open>The reference example of the README\<close>

record 'n ticket =
  urgency :: 'n
  complexity :: 'n

definition urgencySet :: "'n arith \<Rightarrow> 'n FuzzySet" where
  "urgencySet A =
     \<lparr> name = ''Urgency'',
       membershipFunction =
         (\<lambda>urgency. if flt A urgency (flit A 3) then flit A 0
                     else if flt A urgency (flit A 7)
                          then fdiv A (fsub A urgency (flit A 3)) (flit A 4)
                          else flit A 1) \<rparr>"

definition complexitySet :: "'n arith \<Rightarrow> 'n FuzzySet" where
  "complexitySet A =
     \<lparr> name = ''Complexity'',
       membershipFunction =
         (\<lambda>complexity. if flt A complexity (flit A 2) then flit A 0
                        else if flt A complexity (flit A 5)
                             then fdiv A (fsub A complexity (flit A 2)) (flit A 3)
                             else flit A 1) \<rparr>"

definition urgentSet :: "'n arith \<Rightarrow> 'n FuzzySet" where
  "urgentSet A =
     \<lparr> name = ''Urgent'',
       membershipFunction =
         (\<lambda>x. if fge A x (flit A 7) then flit A 1 else fdiv A x (flit A 7)) \<rparr>"

definition example_rules :: "'n arith \<Rightarrow> ('n, 'n ticket) FuzzyRule list" where
  "example_rules A =
     [ new_FuzzyRule A
         (\<lambda>inputs. fgt A (membershipDegree (urgencySet A) (urgency inputs)) (flit A 0.7)
                    \<and> fgt A (membershipDegree (complexitySet A) (complexity inputs))
                          (flit A 0.7))
         (FixedSet (urgentSet A)) None,
       new_FuzzyRule A
         (\<lambda>inputs. fgt A (membershipDegree (urgencySet A) (urgency inputs)) (flit A 0.5))
         (Computed (\<lambda>_. Label ''High Priority'')) None,
       new_FuzzyRule A
         (\<lambda>inputs. fgt A (membershipDegree (complexitySet A) (complexity inputs))
                      (flit A 0.5))
         (Computed (\<lambda>_. Label ''Medium Priority'')) None,
       new_FuzzyRule A
         (\<lambda>inputs. fle A (membershipDegree (urgencySet A) (urgency inputs)) (flit A 0.5)
                    \<and> fle A (membershipDegree (complexitySet A) (complexity inputs))
                          (flit A 0.5))
         (Computed (\<lambda>_. Label ''Low Priority'')) None ]"

definition example_engine :: "'n arith \<Rightarrow> ('n, 'n ticket) InferenceEngine" where
  "example_engine A = \<lparr> rules = example_rules A \<rparr>"

definition example_ticket :: "'n arith \<Rightarrow> 'n ticket" where
  "example_ticket A = \<lparr> urgency = flit A 8, complexity = flit A 6 \<rparr>"

subsection \<open>Further concrete fuzzy sets and engines\<close>

text \<open>A membership function that exceeds 1, to exercise \<open>normalize\<close>.\<close>

definition rampSet :: "'n FuzzySet" where
  "rampSet = \<lparr> name = ''Ramp'', membershipFunction = (\<lambda>x. x) \<rparr>"

text \<open>A curve that is 1 everywhere except for a dip to 0 at \<open>x = 1\<close>.\<close>

definition dipSet :: "'n arith \<Rightarrow> 'n FuzzySet" where
  "dipSet A =
     \<lparr> name = ''Dip'',
       membershipFunction = (\<lambda>x. if feq A x (flit A 1) then flit A 0 else flit A 1) \<rparr>"


text \<open>One rule that always matches, with the label \<open>Urgent\<close> and the weight \<open>-1\<close>.\<close>

definition negative_engine :: "'n arith \<Rightarrow> ('n, unit) InferenceEngine" where
  "negative_engine A =
     \<lparr> rules = [new_FuzzyRule A (\<lambda>_. True) (Computed (\<lambda>_. Label ''Urgent''))
                  (Some (flit A (- 1)))] \<rparr>"

text \<open>
  An engine with the same FuzzySet consequence as the reference example, and with other
  conditions, weights and a function-valued consequence that returns a FuzzySet.
\<close>

definition other_engine :: "'n arith \<Rightarrow> ('n, unit) InferenceEngine" where
  "other_engine A =
     \<lparr> rules =
         [ new_FuzzyRule A (\<lambda>_. True) (Computed (\<lambda>_. SetValue (dipSet A))) (Some (flit A 4)),
           new_FuzzyRule A (\<lambda>_. False) (FixedSet (urgentSet A)) (Some (flit A 0)) ] \<rparr>"

text \<open>A membership function that is not a number anywhere, in the arithmetic \<open>checked\<close>.\<close>

definition nanSet :: "real option FuzzySet" where
  "nanSet = \<lparr> name = ''NaN'', membershipFunction = (\<lambda>x. None) \<rparr>"

definition nan_engine :: "(real option, unit) InferenceEngine" where
  "nan_engine = \<lparr> rules = [new_FuzzyRule checked (\<lambda>_. True) (FixedSet nanSet) None] \<rparr>"

subsection \<open>The points the loop visits\<close>

text \<open>
  \<open>visited A n x step\<close> are the first \<open>n\<close> values of the loop variable, computed as the
  loop computes them, by repeated \<^verbatim>\<open>x += step\<close> in the arithmetic \<open>A\<close>;
  \<open>next_point A n x step\<close> is the value after them. The loop runs over exactly \<open>n\<close>
  samples when the first \<open>n\<close> values pass the test \<^verbatim>\<open>x <= max\<close> and the next one fails it.
  Nothing says that such an \<open>n\<close> exists: with doubles \<open>x + step\<close> can be \<open>x\<close> again.
\<close>

fun visited :: "'n arith \<Rightarrow> nat \<Rightarrow> 'n \<Rightarrow> 'n \<Rightarrow> 'n list" where
  "visited A 0 x step = []"
| "visited A (Suc n) x step = x # visited A n (fadd A x step) step"

fun next_point :: "'n arith \<Rightarrow> nat \<Rightarrow> 'n \<Rightarrow> 'n \<Rightarrow> 'n" where
  "next_point A 0 x step = x"
| "next_point A (Suc n) x step = next_point A n (fadd A x step) step"

definition runs_for :: "'n arith \<Rightarrow> nat \<Rightarrow> 'n \<Rightarrow> 'n \<Rightarrow> 'n \<Rightarrow> bool" where
  "runs_for A n mn mx step \<longleftrightarrow>
     list_all (\<lambda>x. fle A x mx) (visited A n mn step) \<and> \<not> fle A (next_point A n mn step) mx"

text \<open>A loop over a list with the same two exits, to state what \<open>for_loop\<close> computes.\<close>

fun fold_ctl :: "('a \<Rightarrow> 's \<Rightarrow> 's ctl) \<Rightarrow> 'a list \<Rightarrow> 's \<Rightarrow> 's" where
  "fold_ctl body [] s = s"
| "fold_ctl body (x # xs) s =
     (case body x s of Continue s' \<Rightarrow> fold_ctl body xs s' | Break s' \<Rightarrow> s')"

subsection \<open>Definitions used to state the theorems\<close>

text \<open>
  The body of the loop of \<open>defuzzifyMOM\<close>, as a function of the aggregate curve, and the
  value returned after the loop.
\<close>

definition mom_step :: "'n arith \<Rightarrow> ('n \<Rightarrow> 'n) \<Rightarrow> 'n \<Rightarrow> 'n \<times> 'n \<times> 'n \<Rightarrow> 'n \<times> 'n \<times> 'n" where
  "mom_step A agg x = (\<lambda>(maxMu, sumX, count).
       if fgt A (agg x) maxMu then (agg x, x, flit A 1)
       else if feq A (agg x) maxMu then (maxMu, fadd A sumX x, fadd A count (flit A 1))
       else (maxMu, sumX, count))"

definition mom_return :: "'n arith \<Rightarrow> 'n \<times> 'n \<times> 'n \<Rightarrow> 'n" where
  "mom_return A = (\<lambda>(maxMu, sumX, count).
       if feq A count (flit A 0) then flit A 0 else fdiv A sumX count)"

text \<open>The body of the second loop of \<open>defuzzifyBisector\<close>.\<close>

definition bisector_step ::
  "'n arith \<Rightarrow> ('n \<Rightarrow> 'n) \<Rightarrow> 'n \<Rightarrow> 'n \<Rightarrow> 'n \<Rightarrow> 'n \<times> 'n \<Rightarrow> ('n \<times> 'n) ctl" where
  "bisector_step A agg step totalArea x = (\<lambda>(leftArea, bisector).
       if fge A (fadd A leftArea (fmul A (agg x) step)) (fdiv A totalArea (flit A 2))
       then Break (fadd A leftArea (fmul A (agg x) step), x)
       else Continue (fadd A leftArea (fmul A (agg x) step), bisector))"

text \<open>
  The sum of the source, \<^verbatim>\<open>let s = 0; for (...) s += f(x)\<close>: the terms are added in the
  order of the list, starting from the literal 0.
\<close>

definition fsum :: "'n arith \<Rightarrow> ('a \<Rightarrow> 'n) \<Rightarrow> 'a list \<Rightarrow> 'n" where
  "fsum A f xs = fold (\<lambda>x s. fadd A s (f x)) xs (flit A 0)"

text \<open>
  What the specification says \<open>infer\<close> returns: the weighted mean is mapped back to a
  label unless no rule matched or the total weight is 0. This definition follows the
  specification's words, not the source.
\<close>

definition infer_claimed :: "'n arith \<Rightarrow> ('n, 'i) InferenceEngine \<Rightarrow> 'i \<Rightarrow> string" where
  "infer_claimed A E inputs =
     (let matched = filter (\<lambda>rule. condition rule inputs) (rules E);
          score = (\<lambda>rule. priorityMapping A
                     (case consequence rule of
                        FixedSet fuzzySet \<Rightarrow> SetValue fuzzySet
                      | Computed f \<Rightarrow> f inputs));
          totalWeight = fsum A weight matched;
          weightedSum = fsum A (\<lambda>rule. fmul A (score rule) (weight rule)) matched
      in if matched = [] then ''Low Priority''
         else if feq A totalWeight (flit A 0) then ''Low Priority''
         else let mean = fdiv A weightedSum totalWeight
              in if fge A mean (flit A 2.5) then ''Urgent''
                 else if fge A mean (flit A 1.5) then ''High Priority''
                 else if fge A mean (flit A 0.5) then ''Medium Priority''
                 else ''Low Priority'')"


section \<open>Lemmas\<close>

subsection \<open>The two concrete arithmetics\<close>

lemma exact_simps:
  "flit exact r = r" "fadd exact a b = a + b" "fsub exact a b = a - b"
  "fmul exact a b = a * b" "fdiv exact a b = a / b"
  "fmax exact a b = max a b" "fmin exact a b = min a b"
  "flt exact a b \<longleftrightarrow> a < b" "fle exact a b \<longleftrightarrow> a \<le> b"
  "fgt exact a b \<longleftrightarrow> b < a" "fge exact a b \<longleftrightarrow> b \<le> a" "feq exact a b \<longleftrightarrow> a = b"
  by (simp_all add: exact_def)

lemma checked_simps:
  "flit checked r = Some r"
  "fadd checked (Some x) (Some y) = Some (x + y)"
  "fsub checked (Some x) (Some y) = Some (x - y)"
  "fmul checked (Some x) (Some y) = Some (x * y)"
  "fdiv checked (Some x) (Some y) = (if y = 0 then None else Some (x / y))"
  "fmax checked (Some x) (Some y) = Some (max x y)"
  "fmin checked (Some x) (Some y) = Some (min x y)"
  "flt checked (Some x) (Some y) \<longleftrightarrow> x < y" "fle checked (Some x) (Some y) \<longleftrightarrow> x \<le> y"
  "fgt checked (Some x) (Some y) \<longleftrightarrow> y < x" "fge checked (Some x) (Some y) \<longleftrightarrow> y \<le> x"
  "feq checked (Some x) (Some y) \<longleftrightarrow> x = y"
  by (simp_all add: checked_def lift2_def cmp2_def)

subsection \<open>What the loops compute\<close>

text \<open>
  When the loop runs over \<open>n\<close> samples it returns, and its result is the fold of the body
  over the points it visited. It returns in no other case, unless the body breaks.
\<close>

lemma runs_for_0: "runs_for A 0 x mx step \<longleftrightarrow> \<not> fle A x mx"
  by (simp add: runs_for_def)

lemma runs_for_Suc:
  "runs_for A (Suc n) x mx step \<longleftrightarrow> fle A x mx \<and> runs_for A n (fadd A x step) mx step"
  by (simp add: runs_for_def)

lemma for_loop_visits:
  "runs_for A n x mx step \<Longrightarrow>
   for_loop A body x mx step s = Some (fold_ctl body (visited A n x step) s)"
proof (induction n arbitrary: x s)
  case 0
  then show ?case
    by (subst for_loop.simps) (simp add: runs_for_0)
next
  case (Suc n)
  then have le: "fle A x mx" and rest: "runs_for A n (fadd A x step) mx step"
    by (simp_all add: runs_for_Suc)
  show ?case
  proof (cases "body x s")
    case (Continue s')
    with le Suc.IH [OF rest, of s'] show ?thesis
      by (subst for_loop.simps) simp
  next
    case (Break s')
    with le show ?thesis
      by (subst for_loop.simps) simp
  qed
qed

lemma fold_ctl_Continue:
  "fold_ctl (\<lambda>x s. Continue (g x s)) xs s = fold g xs s"
  by (induction xs arbitrary: s) simp_all

lemma for_loop_fold:
  assumes "\<And>x s. body x s = Continue (g x s)" and "runs_for A n x mx step"
  shows "for_loop A body x mx step s = Some (fold g (visited A n x step) s)"
proof -
  have "body = (\<lambda>x s. Continue (g x s))"
    using assms(1) by (intro ext)
  with assms(2) show ?thesis
    by (simp add: for_loop_visits fold_ctl_Continue)
qed

lemma for_loop_returns_runs:
  fixes A :: "'n arith" and s r :: 's
  assumes ret: "for_loop A body x mx step s = Some r"
    and cont: "\<And>x s. \<exists>s'. body x s = Continue s'"
  shows "\<exists>n. runs_for A n x mx step"
proof -
  let ?P = "\<lambda>(A :: 'n arith) body x mx step (s :: 's) (r :: 's).
     (\<forall>x s. \<exists>s'. body x s = Continue s') \<longrightarrow> (\<exists>n. runs_for A n x mx step)"
  have "?P A body x mx step s r"
  proof (rule for_loop.raw_induct [where P = ?P and xa = "(((((A, body), x), mx), step), s)"
        and y = r, unfolded prod.case])
    show "for_loop A body x mx step s = Some r" by (rule ret)
  next
    fix f :: "'n arith \<Rightarrow> ('n \<Rightarrow> 's \<Rightarrow> 's ctl) \<Rightarrow> 'n \<Rightarrow> 'n \<Rightarrow> 'n \<Rightarrow> 's \<Rightarrow> 's option"
    fix A :: "'n arith" and body x mx step and s r :: 's
    assume IH: "\<And>A x mx step s b y. f A x mx step s b = Some y \<Longrightarrow> ?P A x mx step s b y"
    assume eq: "(if fle A x mx
      then case body x s of
           Continue s' \<Rightarrow> f A body (fadd A x step) mx step s'
           | Break s' \<Rightarrow> Some s'
      else Some s) = Some r"
    show "?P A body x mx step s r"
    proof (intro impI)
      assume c: "\<forall>x s. \<exists>s'. body x s = Continue s'"
      show "\<exists>n. runs_for A n x mx step"
      proof (cases "fle A x mx")
        case False
        then have "runs_for A 0 x mx step" by (simp add: runs_for_0)
        then show ?thesis ..
      next
        case True
        from c obtain s' where s': "body x s = Continue s'" by blast
        from eq True s' have "f A body (fadd A x step) mx step s' = Some r" by simp
        from IH [OF this] c obtain n where "runs_for A n (fadd A x step) mx step" by blast
        with True have "runs_for A (Suc n) x mx step" by (simp add: runs_for_Suc)
        then show ?thesis ..
      qed
    qed
  qed
  with cont show ?thesis by blast
qed

lemma for_loop_never:
  assumes "\<And>x s. \<exists>s'. body x s = Continue s'" and "\<forall>n. \<not> runs_for A n x mx step"
  shows "for_loop A body x mx step s = None"
proof (cases "for_loop A body x mx step s")
  case None
  then show ?thesis .
next
  case (Some r)
  from for_loop_returns_runs [OF Some assms(1)] assms(2) show ?thesis by blast
qed

text \<open>
  A step that the arithmetic absorbs (\<open>x + step\<close> is \<open>x\<close>, as for the doubles
  \<^verbatim>\<open>1e16 + 0.5\<close>) stalls the loop at a point inside the domain.
\<close>

lemma stalled_never_runs:
  assumes "fadd A x step = x" and "fle A x mx"
  shows "\<not> runs_for A n x mx step"
  using assms by (induction n) (simp_all add: runs_for_0 runs_for_Suc)

subsection \<open>The centroid loops\<close>

lemma membershipDegree_eq: "membershipDegree F = membershipFunction F"
  by (intro ext) (simp add: membershipDegree_def)

lemma fsum_Nil: "fsum A f [] = flit A 0"
  by (simp add: fsum_def)

lemma fsum_map: "fsum A f (map h xs) = fsum A (\<lambda>x. f (h x)) xs"
  by (simp add: fsum_def fold_map comp_def)

lemma centroid_fold:
  "fold (\<lambda>x (numerator, denominator).
           (fadd A numerator (fmul A x (f x)), fadd A denominator (f x))) xs (a, b)
     = (fold (\<lambda>x s. fadd A s (fmul A x (f x))) xs a, fold (\<lambda>x s. fadd A s (f x)) xs b)"
  by (induction xs arbitrary: a b) simp_all

lemma centroid_loop:
  assumes "runs_for A n mn mx step"
  shows "for_loop A (\<lambda>x (numerator, denominator).
                Continue (fadd A numerator (fmul A x (f x)), fadd A denominator (f x)))
             mn mx step (flit A 0, flit A 0)
         = Some (fsum A (\<lambda>x. fmul A x (f x)) (visited A n mn step),
                 fsum A f (visited A n mn step))"
proof -
  have "for_loop A (\<lambda>x (numerator, denominator).
                Continue (fadd A numerator (fmul A x (f x)), fadd A denominator (f x)))
             mn mx step (flit A 0, flit A 0)
    = Some (fold (\<lambda>x (numerator, denominator).
                    (fadd A numerator (fmul A x (f x)), fadd A denominator (f x)))
              (visited A n mn step) (flit A 0, flit A 0))"
    using assms by (intro for_loop_fold) auto
  then show ?thesis
    by (simp add: centroid_fold fsum_def)
qed

lemma centroid_result:
  assumes "runs_for A n mn mx (step_or_default A step)"
  shows "centroid A F mn mx step =
           Some (let xs = visited A n mn (step_or_default A step);
                     numerator = fsum A (\<lambda>x. fmul A x (membershipFunction F x)) xs;
                     denominator = fsum A (membershipFunction F) xs
                 in if feq A denominator (flit A 0) then flit A 0
                    else fdiv A numerator denominator)"
    and "defuzzifyCentroid A E mn mx step =
           Some (let xs = visited A n mn (step_or_default A step);
                     mu = aggregate A (getFuzzySetConsequences E);
                     numerator = fsum A (\<lambda>x. fmul A x (mu x)) xs;
                     denominator = fsum A mu xs
                 in if feq A denominator (flit A 0) then flit A 0
                    else fdiv A numerator denominator)"
  using assms
  by (simp_all add: centroid_def defuzzifyCentroid_def centroid_loop Let_def)

subsection \<open>Evaluation of the concrete examples\<close>

lemma example_consequences: "getFuzzySetConsequences (example_engine A) = [urgentSet A]"
  by (simp add: getFuzzySetConsequences_def example_engine_def example_rules_def
      new_FuzzyRule_def)

lemma runs_exact_0_14_7: "runs_for exact (Suc (Suc (Suc 0))) 0 14 7"
  by (simp add: runs_for_def exact_simps)


lemma runs_checked_0_2_1:
  "runs_for checked (Suc (Suc (Suc 0))) (Some 0) (Some 2) (Some 1)"
  by (simp add: runs_for_def checked_simps)

subsection \<open>The collection and aggregation of \<open>infer\<close>\<close>

lemma collect_fold:
  "fold (\<lambda>rule results.
           case evaluate rule inputs of
             Some evaluation \<Rightarrow> results @ [evaluation]
           | None \<Rightarrow> results) rs acc
   = acc @ map (\<lambda>rule. (case consequence rule of
                            FixedSet fuzzySet \<Rightarrow> SetValue fuzzySet
                          | Computed f \<Rightarrow> f inputs, weight rule))
             (filter (\<lambda>rule. condition rule inputs) rs)"
  by (induction rs arbitrary: acc) (simp_all add: evaluate_def)

lemma weighted_fold:
  "fold (\<lambda>(result, weight) (weightedSum, totalWeight).
           (fadd A weightedSum (fmul A (priorityMapping A result) weight),
            fadd A totalWeight weight))
        (map (\<lambda>rule. (res rule, weight rule)) rs) (a, b)
   = (fold (\<lambda>rule s. fadd A s (fmul A (priorityMapping A (res rule)) (weight rule))) rs a,
      fold (\<lambda>rule s. fadd A s (weight rule)) rs b)"
  by (induction rs arbitrary: a b) simp_all

lemma infer_unfolded:
  "infer A E inputs =
     (let matched = filter (\<lambda>rule. condition rule inputs) (rules E);
          score = (\<lambda>rule. priorityMapping A
                     (case consequence rule of
                        FixedSet fuzzySet \<Rightarrow> SetValue fuzzySet
                      | Computed f \<Rightarrow> f inputs));
          totalWeight = fsum A weight matched;
          weightedSum = fsum A (\<lambda>rule. fmul A (score rule) (weight rule)) matched
      in if matched = [] then ''Low Priority''
         else if fgt A totalWeight (flit A 0)
              then let mean = fdiv A weightedSum totalWeight
                   in if fge A mean (flit A 2.5) then ''Urgent''
                      else if fge A mean (flit A 1.5) then ''High Priority''
                      else if fge A mean (flit A 0.5) then ''Medium Priority''
                      else ''Low Priority''
              else ''Low Priority'')"
  by (simp add: infer_def aggregateResults_def collect_fold weighted_fold
      reversePriorityMapping_def Let_def fsum_def)

lemma priorityMapping_table:
  "priorityMapping A (Label ''Urgent'') = flit A 3"
  "priorityMapping A (Label ''High Priority'') = flit A 2"
  "priorityMapping A (Label ''Medium Priority'') = flit A 1"
  "priorityMapping A (SetValue fuzzySet) = flit A 0"
  "priorityMapping A OtherValue = flit A 0"
  "l \<noteq> ''Urgent'' \<Longrightarrow> l \<noteq> ''High Priority'' \<Longrightarrow> l \<noteq> ''Medium Priority''
     \<Longrightarrow> priorityMapping A (Label l) = flit A 0"
  by (simp_all add: priorityMapping_def)

lemma negative_infer: "infer exact (negative_engine exact) () = ''Low Priority''"
  by (simp add: infer_unfolded negative_engine_def new_FuzzyRule_def fsum_def exact_simps)

lemma negative_claimed: "infer_claimed exact (negative_engine exact) () = ''Urgent''"
  by (simp add: infer_claimed_def negative_engine_def new_FuzzyRule_def priorityMapping_def
      fsum_def exact_simps)

subsection \<open>The loop of \<open>defuzzifyMOM\<close>\<close>

text \<open>
  A sample below the running maximum (neither greater than it nor equal to it) leaves the
  three variables as they are; a sample equal to it is added to the sum and counted.
\<close>

lemma mom_loop:
  assumes "runs_for A n mn mx step"
  shows "for_loop A (\<lambda>x (maxMu, sumX, count).
                Continue (if fgt A (agg x) maxMu then (agg x, x, flit A 1)
                          else if feq A (agg x) maxMu
                               then (maxMu, fadd A sumX x, fadd A count (flit A 1))
                               else (maxMu, sumX, count)))
             mn mx step s0
         = Some (fold (mom_step A agg) (visited A n mn step) s0)"
  using assms by (intro for_loop_fold) (auto simp: mom_step_def)

lemma mom_result:
  assumes "runs_for A n mn mx (step_or_default A step)"
  shows "defuzzifyMOM A E mn mx step =
           Some (mom_return A
                   (fold (mom_step A (aggregate A (getFuzzySetConsequences E)))
                      (visited A n mn (step_or_default A step))
                      (flit A 0, flit A 0, flit A 0)))"
proof -
  let ?agg = "aggregate A (getFuzzySetConsequences E)"
  note loop = mom_loop [OF assms, of ?agg "(flit A 0, flit A 0, flit A 0)"]
  show ?thesis
    unfolding defuzzifyMOM_def Let_def loop
    by (simp add: mom_return_def split_def)
qed







lemma mom_zero_fold:
  assumes "\<forall>x \<in> set xs. \<not> fgt A (agg x) z \<and> feq A (agg x) z"
  shows "fold (mom_step A agg) xs (z, s, c)
       = (z, fold (\<lambda>x s. fadd A s x) xs s, fold (\<lambda>x c. fadd A c (flit A 1)) xs c)"
  using assms by (induction xs arbitrary: s c) (simp_all add: mom_step_def)

lemma runs_for_pos: "runs_for A n mn mx step \<Longrightarrow> fle A mn mx \<Longrightarrow> 0 < n"
  by (cases n) (simp_all add: runs_for_0)

lemma negative_consequences: "getFuzzySetConsequences (negative_engine A) = []"
  by (simp add: getFuzzySetConsequences_def negative_engine_def new_FuzzyRule_def)

lemma visited_exact_0_7: "visited exact (Suc (Suc (Suc 0))) 0 7 = [0, 7, 14]"
  by (simp add: exact_simps)

subsection \<open>The two passes of \<open>defuzzifyBisector\<close>\<close>

text \<open>
  The first pass sums \<open>mu * step\<close> over the samples. The second pass stops at the first
  sample whose accumulated area reaches half of that sum; the index of that sample is the
  first index \<open>i\<close> for which the sum over the first \<open>i + 1\<close> samples reaches it.
\<close>

lemma area_loop:
  assumes "runs_for A n mn mx step"
  shows "for_loop A (\<lambda>x totalArea. Continue (fadd A totalArea (f x))) mn mx step (flit A 0)
         = Some (fsum A f (visited A n mn step))"
  unfolding fsum_def using assms by (intro for_loop_fold) simp

lemma find_upt_Suc:
  "find P [0..<Suc n] = (if P 0 then Some 0 else map_option Suc (find (P \<circ> Suc) [0..<n]))"
proof -
  have "[0..<Suc n] = 0 # map Suc [0..<n]"
    by (simp add: map_Suc_upt upt_conv_Cons)
  moreover have "find P (map Suc ns) = map_option Suc (find (P \<circ> Suc) ns)" for ns
    by (induction ns) simp_all
  ultimately show ?thesis by simp
qed

lemma bisector_fold:
  "snd (fold_ctl (bisector_step A agg step h) xs (l, b)) =
     (case find (\<lambda>i. fge A (fold (\<lambda>x s. fadd A s (fmul A (agg x) step)) (take (Suc i) xs) l)
                         (fdiv A h (flit A 2)))
             [0..<length xs] of
        Some i \<Rightarrow> xs ! i
      | None \<Rightarrow> b)"
proof (induction xs arbitrary: l)
  case Nil
  then show ?case by simp
next
  case (Cons x xs)
  show ?case
  proof (cases "fge A (fadd A l (fmul A (agg x) step)) (fdiv A h (flit A 2))")
    case True
    then show ?thesis
      by (simp add: bisector_step_def find_upt_Suc del: upt_Suc)
  next
    case False
    then have "fold_ctl (bisector_step A agg step h) (x # xs) (l, b)
        = fold_ctl (bisector_step A agg step h) xs (fadd A l (fmul A (agg x) step), b)"
      by (simp add: bisector_step_def)
    with False show ?thesis
      by (simp add: Cons.IH find_upt_Suc comp_def option.case_eq_if
          option.map_sel del: upt_Suc)
  qed
qed

lemma bisector_loop:
  assumes "runs_for A n mn mx step"
  shows "for_loop A (\<lambda>x (leftArea, bisector).
                if fge A (fadd A leftArea (fmul A (agg x) step)) (fdiv A totalArea (flit A 2))
                then Break (fadd A leftArea (fmul A (agg x) step), x)
                else Continue (fadd A leftArea (fmul A (agg x) step), bisector))
             mn mx step (flit A 0, mn)
         = Some (fold_ctl (bisector_step A agg step totalArea) (visited A n mn step)
                   (flit A 0, mn))"
proof -
  have "(\<lambda>x (leftArea, bisector).
                if fge A (fadd A leftArea (fmul A (agg x) step)) (fdiv A totalArea (flit A 2))
                then Break (fadd A leftArea (fmul A (agg x) step), x)
                else Continue (fadd A leftArea (fmul A (agg x) step), bisector))
        = bisector_step A agg step totalArea"
    by (intro ext) (simp add: bisector_step_def)
  with assms show ?thesis
    by (simp only: for_loop_visits)
qed

lemma bisector_result:
  assumes "runs_for A n mn mx (step_or_default A step)"
  shows "defuzzifyBisector A E mn mx step =
           Some (let st = step_or_default A step;
                     xs = visited A n mn st;
                     mu = aggregate A (getFuzzySetConsequences E);
                     area = fsum A (\<lambda>x. fmul A (mu x) st);
                     totalArea = area xs
                 in case find (\<lambda>i. fge A (area (take (Suc i) xs)) (fdiv A totalArea (flit A 2)))
                           [0..<length xs] of
                      Some i \<Rightarrow> xs ! i
                    | None \<Rightarrow> mn)"
proof -
  let ?st = "step_or_default A step"
  let ?agg = "aggregate A (getFuzzySetConsequences E)"
  let ?xs = "visited A n mn ?st"
  let ?total = "fsum A (\<lambda>x. fmul A (?agg x) ?st) ?xs"
  have pass1: "for_loop A (\<lambda>x totalArea. Continue (fadd A totalArea (fmul A (?agg x) ?st)))
                 mn mx ?st (flit A 0) = Some ?total"
    using assms by (rule area_loop)
  have pass2: "for_loop A (\<lambda>x (leftArea, bisector).
                if fge A (fadd A leftArea (fmul A (?agg x) ?st)) (fdiv A ?total (flit A 2))
                then Break (fadd A leftArea (fmul A (?agg x) ?st), x)
                else Continue (fadd A leftArea (fmul A (?agg x) ?st), bisector))
             mn mx ?st (flit A 0, mn)
         = Some (fold_ctl (bisector_step A ?agg ?st ?total) ?xs (flit A 0, mn))"
    using assms by (rule bisector_loop)
  have "defuzzifyBisector A E mn mx step
      = Some (snd (fold_ctl (bisector_step A ?agg ?st ?total) ?xs (flit A 0, mn)))"
    unfolding defuzzifyBisector_def Let_def pass1 option.case pass2
    by (simp add: split_def)
  then show ?thesis
    unfolding Let_def bisector_fold fsum_def by simp
qed

lemma pick_first:
  assumes "P 0" and "xs = x # ys"
  shows "(case find P [0..<length xs] of Some i \<Rightarrow> xs ! i | None \<Rightarrow> b) = x"
  using assms by (simp add: find_upt_Suc del: upt_Suc)

lemma pick_none:
  assumes "\<forall>i < length xs. \<not> P i"
  shows "(case find P [0..<length xs] of Some i \<Rightarrow> xs ! i | None \<Rightarrow> b) = b"
proof -
  from assms have "find P [0..<length xs] = None"
    by (simp add: find_None_iff)
  then show ?thesis by simp
qed

lemma length_visited: "length (visited A n x step) = n"
  by (induction n arbitrary: x) simp_all

lemma visited_first: "0 < n \<Longrightarrow> \<exists>ys. visited A n x step = x # ys"
  by (cases n) simp_all

lemma nan_consequences: "getFuzzySetConsequences nan_engine = [nanSet]"
  by (simp add: getFuzzySetConsequences_def nan_engine_def new_FuzzyRule_def)

lemma visited_checked_0_1:
  "visited checked (Suc (Suc (Suc 0))) (Some 0) (Some 1) = [Some 0, Some 1, Some 2]"
  by (simp add: checked_simps)

lemma runs_exact_empty: "runs_for exact 0 1 0 1"
  by (simp add: runs_for_0 exact_simps)

lemma checked_None:
  "fadd checked a None = None" "fmul checked None b = None" "fmax checked a None = None"
  "fge checked None b \<longleftrightarrow> False"
  by (simp_all add: checked_def lift2_def cmp2_def split: option.split)

lemma fsum_checked_None: "fsum checked (\<lambda>x. None) (y # ys) = None"
proof -
  have "fold (\<lambda>x s. fadd checked s None) ys None = None"
    by (induction ys) (simp_all add: checked_None)
  then show ?thesis
    by (simp add: fsum_def checked_None)
qed

lemma nan_aggregate: "aggregate checked [nanSet] = (\<lambda>x. None)"
  by (rule ext) (simp add: aggregate_def nanSet_def checked_None)

subsection \<open>The FuzzySet consequences of an engine\<close>

lemma consequences_Nil: "getFuzzySetConsequences \<lparr> rules = [] \<rparr> = []"
  by (simp add: getFuzzySetConsequences_def)

lemma consequences_Cons:
  "getFuzzySetConsequences \<lparr> rules = rule # rs \<rparr> =
     (case consequence rule of
        FixedSet fuzzySet \<Rightarrow> fuzzySet # getFuzzySetConsequences \<lparr> rules = rs \<rparr>
      | Computed f \<Rightarrow> getFuzzySetConsequences \<lparr> rules = rs \<rparr>)"
  by (simp add: getFuzzySetConsequences_def split: consequence.split)

lemma consequences_append:
  "getFuzzySetConsequences \<lparr> rules = rs @ rs' \<rparr> =
     getFuzzySetConsequences \<lparr> rules = rs \<rparr> @ getFuzzySetConsequences \<lparr> rules = rs' \<rparr>"
  by (simp add: getFuzzySetConsequences_def)

lemma consequences_filter:
  "map FixedSet (getFuzzySetConsequences E)
     = filter instanceof_FuzzySet (map consequence (rules E))"
proof -
  have "map FixedSet [fuzzySet. FixedSet fuzzySet \<leftarrow> cs] = filter instanceof_FuzzySet cs"
    for cs :: "('a, 'b) consequence list"
    by (induction cs) (simp_all split: consequence.split)
  then show ?thesis
    by (simp only: getFuzzySetConsequences_def)
qed

lemma other_consequences: "getFuzzySetConsequences (other_engine A) = [urgentSet A]"
  by (simp add: getFuzzySetConsequences_def other_engine_def new_FuzzyRule_def)

lemma aggregate_map:
  "aggregate A fuzzySets x
     = fold (\<lambda>f mu. fmax A mu (f x)) (map membershipFunction fuzzySets) (flit A 0)"
  by (simp add: aggregate_def fold_map comp_def)

lemma aggregate_cong:
  assumes "map membershipFunction fuzzySets = map membershipFunction fuzzySets'"
  shows "aggregate A fuzzySets = aggregate A fuzzySets'"
  by (intro ext) (simp add: aggregate_map assms)

subsection \<open>When the sampling methods return\<close>

text \<open>
  The four sampling methods return exactly when the loop runs over some number of samples.
\<close>

lemma defuzzify_never:
  assumes "\<forall>n. \<not> runs_for A n mn mx (step_or_default A step)"
  shows "centroid A F mn mx step = None"
    and "defuzzifyCentroid A E mn mx step = None"
    and "defuzzifyMOM A E mn mx step = None"
    and "defuzzifyBisector A E mn mx step = None"
proof -
  note never = for_loop_never [OF _ assms]
  show "centroid A F mn mx step = None"
    unfolding centroid_def Let_def by (subst never) (auto simp: split_def)
  show "defuzzifyCentroid A E mn mx step = None"
    unfolding defuzzifyCentroid_def Let_def by (subst never) (auto simp: split_def)
  show "defuzzifyMOM A E mn mx step = None"
    unfolding defuzzifyMOM_def Let_def by (subst never) (auto simp: split_def)
  show "defuzzifyBisector A E mn mx step = None"
    unfolding defuzzifyBisector_def Let_def by (subst never) (auto simp: split_def)
qed

lemma defuzzify_returns_iff:
  "centroid A F mn mx step \<noteq> None \<longleftrightarrow> (\<exists>n. runs_for A n mn mx (step_or_default A step))"
  "defuzzifyCentroid A E mn mx step \<noteq> None
     \<longleftrightarrow> (\<exists>n. runs_for A n mn mx (step_or_default A step))"
  "defuzzifyMOM A E mn mx step \<noteq> None
     \<longleftrightarrow> (\<exists>n. runs_for A n mn mx (step_or_default A step))"
  "defuzzifyBisector A E mn mx step \<noteq> None
     \<longleftrightarrow> (\<exists>n. runs_for A n mn mx (step_or_default A step))"
proof -
  let ?R = "\<exists>n. runs_for A n mn mx (step_or_default A step)"
  have n: "\<not> ?R \<Longrightarrow> \<forall>n. \<not> runs_for A n mn mx (step_or_default A step)"
    by simp
  show "centroid A F mn mx step \<noteq> None \<longleftrightarrow> ?R"
  proof (cases ?R)
    case True
    then obtain n where "runs_for A n mn mx (step_or_default A step)" ..
    from centroid_result(1) [OF this, of F] True show ?thesis by simp
  next
    case False
    from defuzzify_never(1) [OF n [OF False], of F] False show ?thesis by simp
  qed
  show "defuzzifyCentroid A E mn mx step \<noteq> None \<longleftrightarrow> ?R"
  proof (cases ?R)
    case True
    then obtain n where "runs_for A n mn mx (step_or_default A step)" ..
    from centroid_result(2) [OF this, of E] True show ?thesis by simp
  next
    case False
    from defuzzify_never(2) [OF n [OF False], of E] False show ?thesis by simp
  qed
  show "defuzzifyMOM A E mn mx step \<noteq> None \<longleftrightarrow> ?R"
  proof (cases ?R)
    case True
    then obtain n where "runs_for A n mn mx (step_or_default A step)" ..
    from mom_result [OF this, of E] True show ?thesis by simp
  next
    case False
    from defuzzify_never(3) [OF n [OF False], of E] False show ?thesis by simp
  qed
  show "defuzzifyBisector A E mn mx step \<noteq> None \<longleftrightarrow> ?R"
  proof (cases ?R)
    case True
    then obtain n where "runs_for A n mn mx (step_or_default A step)" ..
    from bisector_result [OF this, of E] True show ?thesis by simp
  next
    case False
    from defuzzify_never(4) [OF n [OF False], of E] False show ?thesis by simp
  qed
qed

lemma defuzzify_stalls:
  assumes "fadd A mn (step_or_default A step) = mn" and "fle A mn mx"
  shows "defuzzifyCentroid A E mn mx step = None"
    and "defuzzifyMOM A E mn mx step = None"
    and "defuzzifyBisector A E mn mx step = None"
  using stalled_never_runs [OF assms] defuzzify_never [of A mn mx step]
  by simp_all

subsection \<open>The arithmetic of the reals\<close>

text \<open>
  Without rounding every positive step leads out of the domain, the visited points are an
  arithmetic progression, and the mean of the visited points is at most the midpoint of the
  domain and less than half a step below it. None of this is claimed for doubles.
\<close>

lemma exact_runs_exists:
  assumes "0 < st"
  shows "\<exists>n. runs_for exact n x mx st"
proof (induction "nat (\<lfloor>(mx - x) / st\<rfloor> + 1)" arbitrary: x)
  case 0
  then have "\<lfloor>(mx - x) / st\<rfloor> + 1 \<le> 0" by simp
  then have "\<lfloor>(mx - x) / st\<rfloor> < 0" by linarith
  then have "(mx - x) / st < 0" by simp
  with assms have "mx < x" by (simp add: field_simps)
  then have "runs_for exact 0 x mx st" by (simp add: runs_for_0 exact_simps)
  then show ?case ..
next
  case (Suc k)
  show ?case
  proof (cases "x \<le> mx")
    case False
    then have "runs_for exact 0 x mx st" by (simp add: runs_for_0 exact_simps)
    then show ?thesis ..
  next
    case True
    from assms have "(mx - (x + st)) / st = (mx - x) / st - 1"
      by (simp add: field_simps)
    then have "\<lfloor>(mx - (x + st)) / st\<rfloor> = \<lfloor>(mx - x) / st\<rfloor> - 1"
      by simp
    with Suc.hyps(2) have "k = nat (\<lfloor>(mx - (x + st)) / st\<rfloor> + 1)"
      by simp
    from Suc.hyps(1) [OF this] obtain n where "runs_for exact n (x + st) mx st" ..
    with True have "runs_for exact (Suc n) x mx st"
      by (simp add: runs_for_Suc exact_simps)
    then show ?thesis ..
  qed
qed

lemma exact_progression:
  assumes "runs_for exact (Suc n) x mx st"
  shows "fsum exact (\<lambda>x. 1) (visited exact (Suc n) x st) = real (Suc n)"
    and "2 * fsum exact (\<lambda>x. x) (visited exact (Suc n) x st)
           = real (Suc n) * (x + (x + real n * st))"
    and "x + real n * st \<le> mx" and "mx < x + real n * st + st"
proof -
  have count: "fold (\<lambda>x s. fadd exact s 1) (visited exact m y st) c = c + real m" for m y c
    by (induction m arbitrary: y c) (simp_all add: exact_simps)
  have sum: "2 * fold (\<lambda>x s. fadd exact s x) (visited exact m y st) s
          = 2 * s + real m * (y + (y + (real m - 1) * st))" for m y s
  proof (induction m arbitrary: y s)
    case 0
    then show ?case by simp
  next
    case (Suc m)
    have "2 * fold (\<lambda>x s. fadd exact s x) (visited exact (Suc m) y st) s
        = 2 * fold (\<lambda>x s. fadd exact s x) (visited exact m (y + st) st) (s + y)"
      by (simp add: exact_simps)
    also have "\<dots> = 2 * (s + y) + real m * ((y + st) + ((y + st) + (real m - 1) * st))"
      by (rule Suc.IH)
    also have "\<dots> = 2 * s + real (Suc m) * (y + (y + (real (Suc m) - 1) * st))"
      by (simp add: algebra_simps)
    finally show ?case .
  qed
  from count [of "Suc n" x 0]
  show "fsum exact (\<lambda>x. 1) (visited exact (Suc n) x st) = real (Suc n)"
    by (simp add: fsum_def exact_simps)
  from sum [of "Suc n" x 0]
  show "2 * fsum exact (\<lambda>x. x) (visited exact (Suc n) x st)
           = real (Suc n) * (x + (x + real n * st))"
    by (simp add: fsum_def exact_simps)
  have bounds: "runs_for exact (Suc m) y mx st \<Longrightarrow>
      y + real m * st \<le> mx \<and> mx < y + real m * st + st" for m y
  proof (induction m arbitrary: y)
    case 0
    then show ?case by (simp add: runs_for_Suc runs_for_0 exact_simps)
  next
    case (Suc m)
    from Suc.prems have "runs_for exact (Suc m) (y + st) mx st"
      by (simp add: runs_for_Suc exact_simps)
    from Suc.IH [OF this] show ?case by (simp add: algebra_simps)
  qed
  from bounds [OF assms] show "x + real n * st \<le> mx" and "mx < x + real n * st + st"
    by simp_all
qed

lemma exact_zero_curve_midpoint:
  assumes "runs_for exact n mn mx st" and "mn \<le> mx"
  shows "let xs = visited exact n mn st;
             mean = fdiv exact (fsum exact (\<lambda>x. x) xs) (fsum exact (\<lambda>x. 1) xs)
         in (mn + mx) / 2 - st / 2 < mean \<and> mean \<le> (mn + mx) / 2"
proof -
  from assms obtain m where n: "n = Suc m"
    by (cases n) (simp_all add: runs_for_0 exact_simps)
  note p = exact_progression [OF assms(1) [unfolded n]]
  define mean where "mean = fsum exact (\<lambda>x. x) (visited exact (Suc m) mn st) / real (Suc m)"
  from p(2) have mean: "mean = (mn + (mn + real m * st)) / 2"
    unfolding mean_def by (simp add: field_simps)
  from p(4) mean have lower: "(mn + mx) / 2 - st / 2 < mean"
    by (simp add: field_simps)
  from p(3) mean have upper: "mean \<le> (mn + mx) / 2"
    by (simp add: field_simps)
  from lower upper show ?thesis
    unfolding Let_def n exact_simps p(1) mean_def by (intro conjI)
qed

section \<open>Main theorems\<close>

subsection \<open>FuzzySet\<close>

text \<open>
  C6. For all fuzzy sets F and G and every x, the membership degree of the union is the
  maximum of the two degrees, that of the intersection is their minimum, and that of the
  complement of F is one minus the degree of F, each computed by the operation of the
  arithmetic. In the arithmetic of the reals these are \<open>max\<close>, \<open>min\<close> and \<open>1 - \<mu>\<close>.
\<close>

theorem C6_union_intersection_complement:
  "membershipDegree (union_fuzzy A F G) x
     = fmax A (membershipDegree F x) (membershipDegree G x)
   \<and> membershipDegree (intersection A F G) x
       = fmin A (membershipDegree F x) (membershipDegree G x)
   \<and> membershipDegree (complement A F) x = fsub A (flit A 1) (membershipDegree F x)
   \<and> membershipDegree (union_fuzzy exact P Q) y
       = max (membershipDegree P y) (membershipDegree Q y)
   \<and> membershipDegree (intersection exact P Q) y
       = min (membershipDegree P y) (membershipDegree Q y)
   \<and> membershipDegree (complement exact P) y = 1 - membershipDegree P y"
  by (simp add: membershipDegree_def union_fuzzy_def intersection_def complement_def
      exact_simps)

text \<open>
  C4. For every fuzzy set F and every x, the degree of x in \<open>normalize F\<close> is the degree
  \<open>\<mu>\<close> of x in F divided by \<^verbatim>\<open>Math.max(1, \<mu>)\<close>. On real numbers a degree in the
  interval from 0 to 1 is returned unchanged and a degree above 1 becomes exactly 1. No
  maximum of F over a domain enters the result.
\<close>

theorem C4_normalize:
  "membershipDegree (normalize A F) x
     = fdiv A (membershipDegree F x) (fmax A (flit A 1) (membershipDegree F x))
   \<and> membershipDegree (normalize exact P) y
       = membershipDegree P y / max 1 (membershipDegree P y)
   \<and> (0 \<le> membershipDegree P y \<and> membershipDegree P y \<le> 1
        \<longrightarrow> membershipDegree (normalize exact P) y = membershipDegree P y)
   \<and> (1 < membershipDegree P y \<longrightarrow> membershipDegree (normalize exact P) y = 1)"
  by (simp add: membershipDegree_def normalize_def max_def exact_simps)

theorem C4_normalize_witness:
  "membershipDegree (normalize exact rampSet) (1 / 2) = 1 / 2
   \<and> membershipDegree (normalize exact rampSet) 3 = 1
   \<and> membershipDegree rampSet (1 / 2 :: real) = 1 / 2
   \<and> membershipDegree rampSet (3 :: real) = 3"
  using C4_normalize [of exact rampSet "1 / 2" rampSet "1 / 2"]
    C4_normalize [of exact rampSet 3 rampSet 3]
  by (simp add: membershipDegree_def rampSet_def)

text \<open>
  C7. When the loop runs over \<open>n\<close> samples, \<open>centroid\<close> and \<open>defuzzifyCentroid\<close> return:
  0 if the sum of the memberships over the visited points is \<^verbatim>\<open>=== 0\<close>, and the quotient
  of the sum of \<open>x * \<mu>\<close> by the sum of \<open>\<mu>\<close> over the same points otherwise. The sums
  are the sums of the source, added in the order of the samples, and the division is the one
  of the arithmetic, so the statement does not hold of a body without the test.
\<close>

theorem C7_centroid_zero_mass:
  assumes "runs_for A n mn mx (step_or_default A step)"
  shows "centroid A F mn mx step =
           Some (let xs = visited A n mn (step_or_default A step);
                     numerator = fsum A (\<lambda>x. fmul A x (membershipDegree F x)) xs;
                     denominator = fsum A (membershipDegree F) xs
                 in if feq A denominator (flit A 0) then flit A 0
                    else fdiv A numerator denominator)
       \<and> defuzzifyCentroid A E mn mx step =
           Some (let xs = visited A n mn (step_or_default A step);
                     mu = aggregate A (getFuzzySetConsequences E);
                     numerator = fsum A (\<lambda>x. fmul A x (mu x)) xs;
                     denominator = fsum A mu xs
                 in if feq A denominator (flit A 0) then flit A 0
                    else fdiv A numerator denominator)"
  using centroid_result(1) [OF assms, of F] centroid_result(2) [OF assms, of E]
  by (simp add: membershipDegree_eq)

theorem C7_centroid_zero_mass_witness:
  "centroid checked (urgencySet checked) (Some 0) (Some 2) (Some (Some 1)) = Some (Some 0)
   \<and> fdiv checked (Some 0) (Some 0) = None
   \<and> defuzzifyCentroid exact (example_engine exact) 0 14 (Some 7) = Some (21 / 2)"
  using C7_centroid_zero_mass [of checked "Suc (Suc (Suc 0))" "Some 0" "Some 2"
      "Some (Some 1)" "urgencySet checked" "example_engine checked"]
    C7_centroid_zero_mass [of exact "Suc (Suc (Suc 0))" 0 14 "Some 7" "urgencySet exact"
      "example_engine exact"]
  by (simp add: step_or_default_def runs_exact_0_14_7 runs_checked_0_2_1
      example_consequences membershipDegree_def urgencySet_def urgentSet_def aggregate_def
      fsum_def exact_simps checked_simps)

subsection \<open>InferenceEngine: infer\<close>

text \<open>
  C1, amended to what the code does. \<open>infer\<close> evaluates the rules in order. If no rule
  matches it returns \<open>Low Priority\<close>. Otherwise each matched result is scored (\<open>Urgent\<close> 3,
  \<open>High Priority\<close> 2, \<open>Medium Priority\<close> 1, anything else 0, a FuzzySet and an
  unrecognised string included); if the total weight of the matched rules is not greater
  than 0 the result is \<open>Low Priority\<close>; otherwise the sum of score times weight is divided
  by the sum of the weights and the quotient is mapped back with the thresholds 2.5, 1.5 and
  0.5. Sums, products, quotient and comparisons are those of the arithmetic.
\<close>

theorem C1_infer_weighted_mean:
  "infer A E inputs =
     (let matched = filter (\<lambda>rule. condition rule inputs) (rules E);
          score = (\<lambda>rule. priorityMapping A
                     (case consequence rule of
                        FixedSet fuzzySet \<Rightarrow> SetValue fuzzySet
                      | Computed f \<Rightarrow> f inputs));
          totalWeight = fsum A weight matched;
          weightedSum = fsum A (\<lambda>rule. fmul A (score rule) (weight rule)) matched
      in if matched = [] then ''Low Priority''
         else if fgt A totalWeight (flit A 0)
              then let mean = fdiv A weightedSum totalWeight
                   in if fge A mean (flit A 2.5) then ''Urgent''
                      else if fge A mean (flit A 1.5) then ''High Priority''
                      else if fge A mean (flit A 0.5) then ''Medium Priority''
                      else ''Low Priority''
              else ''Low Priority'')
   \<and> priorityMapping A (Label ''Urgent'') = flit A 3
   \<and> priorityMapping A (Label ''High Priority'') = flit A 2
   \<and> priorityMapping A (Label ''Medium Priority'') = flit A 1
   \<and> priorityMapping A (SetValue fuzzySet) = flit A 0
   \<and> priorityMapping A OtherValue = flit A 0
   \<and> (l \<noteq> ''Urgent'' \<and> l \<noteq> ''High Priority'' \<and> l \<noteq> ''Medium Priority''
        \<longrightarrow> priorityMapping A (Label l) = flit A 0)"
  using infer_unfolded [of A E inputs] by (simp add: priorityMapping_table)

theorem C1_infer_weighted_mean_witness:
  "infer exact (example_engine exact) \<lparr> urgency = 8, complexity = 0 \<rparr> = ''High Priority''
   \<and> priorityMapping exact (Label ''Whenever'') = 0"
  using C1_infer_weighted_mean
    [of exact "example_engine exact" "\<lparr> urgency = 8, complexity = 0 \<rparr>" "urgentSet exact"
       "''Whenever''"]
  by (simp add: example_engine_def example_rules_def new_FuzzyRule_def fsum_def
      membershipDegree_def urgencySet_def complexitySet_def exact_simps)

text \<open>
  C1 as the specification words it fails when the total weight of the matched rules is
  negative: one matching rule with the label \<open>Urgent\<close> and the weight \<open>-1\<close> has the
  weighted mean 3, which the specification maps to \<open>Urgent\<close>, and \<open>infer\<close> returns
  \<open>Low Priority\<close>. Every number of this run is a small integer.
\<close>

theorem C1_negative_weight_counterexample:
  "infer exact (negative_engine exact) () = ''Low Priority''
   \<and> infer_claimed exact (negative_engine exact) () = ''Urgent''"
  by (simp add: negative_infer negative_claimed)

text \<open>
  C2, amended to what the code does. On the four rules of the reference example and the
  input \<open>urgency = 8, complexity = 6\<close> the first three rules match; the FuzzySet
  consequence scores 0, \<open>High Priority\<close> 2 and \<open>Medium Priority\<close> 1, each with the weight
  1, so the mean is 1 and \<open>infer\<close> returns \<open>Medium Priority\<close>.
\<close>

theorem C2_example_medium_priority:
  "infer exact (example_engine exact) (example_ticket exact) = ''Medium Priority''"
  by (simp add: infer_unfolded example_engine_def example_rules_def new_FuzzyRule_def
      example_ticket_def membershipDegree_def urgencySet_def complexitySet_def
      priorityMapping_def fsum_def exact_simps)

text \<open>C2 as the specification words it fails: the label returned is not \<open>Urgent\<close>.\<close>

theorem C2_example_not_urgent_counterexample:
  "infer exact (example_engine exact) (example_ticket exact) \<noteq> ''Urgent''"
  by (simp add: infer_def aggregateResults_def evaluate_def reversePriorityMapping_def
      example_engine_def example_rules_def new_FuzzyRule_def example_ticket_def
      membershipDegree_def urgencySet_def complexitySet_def priorityMapping_def exact_simps)

subsection \<open>InferenceEngine: mean of maxima\<close>




subsection \<open>InferenceEngine: bisector\<close>

text \<open>
  C5. When the loop runs over \<open>n\<close> samples, \<open>defuzzifyBisector\<close> computes the total area
  as the sum of \<open>mu * step\<close> over the visited points and returns the first visited point
  at which the area accumulated so far is \<^verbatim>\<open>>=\<close> half of the total area, and \<open>min\<close> if
  there is no such point. It returns \<open>min\<close> as well when the first sample already reaches
  the threshold, as it does on a total area of zero wherever \<^verbatim>\<open>0 >= 0 / 2\<close>.
\<close>

theorem C5_bisector:
  assumes "runs_for A n mn mx (step_or_default A step)"
  shows "defuzzifyBisector A E mn mx step =
           Some (let st = step_or_default A step;
                     xs = visited A n mn st;
                     mu = aggregate A (getFuzzySetConsequences E);
                     area = fsum A (\<lambda>x. fmul A (mu x) st);
                     totalArea = area xs
                 in case find (\<lambda>i. fge A (area (take (Suc i) xs)) (fdiv A totalArea (flit A 2)))
                           [0..<length xs] of
                      Some i \<Rightarrow> xs ! i
                    | None \<Rightarrow> mn)
       \<and> (let st = step_or_default A step;
               xs = visited A n mn st;
               mu = aggregate A (getFuzzySetConsequences E);
               area = fsum A (\<lambda>x. fmul A (mu x) st);
               totalArea = area xs
           in ((\<forall>i < n. \<not> fge A (area (take (Suc i) xs)) (fdiv A totalArea (flit A 2)))
                 \<longrightarrow> defuzzifyBisector A E mn mx step = Some mn)
            \<and> (0 < n \<and> fge A (area [mn]) (fdiv A totalArea (flit A 2))
                 \<longrightarrow> defuzzifyBisector A E mn mx step = Some mn))"
proof -
  let ?st = "step_or_default A step"
  let ?xs = "visited A n mn ?st"
  let ?mu = "aggregate A (getFuzzySetConsequences E)"
  let ?area = "fsum A (\<lambda>x. fmul A (?mu x) ?st)"
  let ?P = "\<lambda>i. fge A (?area (take (Suc i) ?xs)) (fdiv A (?area ?xs) (flit A 2))"
  have res: "defuzzifyBisector A E mn mx step =
      Some (case find ?P [0..<length ?xs] of Some i \<Rightarrow> ?xs ! i | None \<Rightarrow> mn)"
    using bisector_result [OF assms, of E] unfolding Let_def .
  have none: "defuzzifyBisector A E mn mx step = Some mn" if "\<forall>i < n. \<not> ?P i"
  proof -
    from that have "\<forall>i < length ?xs. \<not> ?P i" by (simp add: length_visited)
    then show ?thesis
      by (simp only: res pick_none [of ?xs ?P])
  qed
  have first: "defuzzifyBisector A E mn mx step = Some mn"
    if "0 < n" and "fge A (?area [mn]) (fdiv A (?area ?xs) (flit A 2))"
  proof -
    from visited_first [OF that(1), of A mn ?st] obtain ys where xs: "?xs = mn # ys" ..
    have "take (Suc 0) ?xs = [mn]"
      by (simp only: xs take_Suc_Cons take_0)
    with that(2) have "?P 0"
      by (simp only:)
    then show ?thesis
      by (simp only: res pick_first [of ?P, OF _ xs])
  qed
  show ?thesis
    unfolding Let_def
  proof (intro conjI impI)
    show "defuzzifyBisector A E mn mx step =
      Some (case find ?P [0..<length ?xs] of Some i \<Rightarrow> ?xs ! i | None \<Rightarrow> mn)"
      by (rule res)
  next
    assume "\<forall>i < n. \<not> ?P i"
    then show "defuzzifyBisector A E mn mx step = Some mn"
      by (rule none)
  next
    assume "0 < n \<and> fge A (?area [mn]) (fdiv A (?area ?xs) (flit A 2))"
    then show "defuzzifyBisector A E mn mx step = Some mn"
      by (elim conjE) (rule first)
  qed
qed

theorem C5_bisector_witness:
  "defuzzifyBisector exact (example_engine exact) 0 14 (Some 7) = Some 7
   \<and> defuzzifyBisector exact (negative_engine exact) 0 14 (Some 7) = Some 0
   \<and> defuzzifyBisector exact (example_engine exact) 1 0 (Some 1) = Some 1
   \<and> defuzzifyBisector checked nan_engine (Some 0) (Some 2) (Some (Some 1)) = Some (Some 0)"
proof -
  have reals: "defuzzifyBisector exact (example_engine exact) 0 14 (Some 7) = Some 7
     \<and> defuzzifyBisector exact (negative_engine exact) 0 14 (Some 7) = Some 0
     \<and> defuzzifyBisector exact (example_engine exact) 1 0 (Some 1) = Some 1"
    using C5_bisector [of exact "Suc (Suc (Suc 0))" 0 14 "Some 7" "example_engine exact"]
      C5_bisector [of exact "Suc (Suc (Suc 0))" 0 14 "Some 7" "negative_engine exact"]
      C5_bisector [of exact 0 1 0 "Some 1" "example_engine exact"]
    by (simp add: step_or_default_def runs_exact_0_14_7 visited_exact_0_7 example_consequences
        negative_consequences urgentSet_def aggregate_def fsum_def exact_simps find_upt_Suc
        runs_exact_empty del: upt_Suc)
  have "defuzzifyBisector checked nan_engine (Some 0) (Some 2) (Some (Some 1)) = Some (Some 0)"
    using C5_bisector [of checked "Suc (Suc (Suc 0))" "Some 0" "Some 2" "Some (Some 1)"
        nan_engine]
    by (simp add: step_or_default_def runs_checked_0_2_1 visited_checked_0_1 nan_consequences
        nan_aggregate checked_None fsum_checked_None)
  with reals show ?thesis by simp
qed

subsection \<open>InferenceEngine: the zero curve\<close>

text \<open>
  C9. Let the loop run over \<open>n\<close> samples on a domain with \<^verbatim>\<open>min <= max\<close>, and let the
  aggregate curve be zero at every visited point: not \<^verbatim>\<open>> 0\<close> and \<^verbatim>\<open>=== 0\<close>, as it is for
  an engine without FuzzySet consequences wherever \<^verbatim>\<open>0 === 0\<close>. Then there is at least
  one sample, every sample takes the equality branch, and \<open>defuzzifyMOM\<close> returns the sum of
  all visited points divided by their count. The fallback 0 is returned only if that count
  is \<^verbatim>\<open>=== 0\<close>, which a count of at least one double never is. In the arithmetic of the
  reals the mean is less than half a step below the midpoint of the domain.
\<close>

theorem C9_mom_zero_curve:
  assumes "runs_for A n mn mx (step_or_default A step)" and "fle A mn mx"
    and "\<forall>x \<in> set (visited A n mn (step_or_default A step)).
           \<not> fgt A (aggregate A (getFuzzySetConsequences E) x) (flit A 0)
           \<and> feq A (aggregate A (getFuzzySetConsequences E) x) (flit A 0)"
  shows "0 < n
       \<and> (let xs = visited A n mn (step_or_default A step);
               sumX = fsum A (\<lambda>x. x) xs;
               count = fsum A (\<lambda>x. flit A 1) xs
           in defuzzifyMOM A E mn mx step =
                Some (if feq A count (flit A 0) then flit A 0 else fdiv A sumX count)
            \<and> (\<not> feq A count (flit A 0)
                 \<longrightarrow> defuzzifyMOM A E mn mx step = Some (fdiv A sumX count)))"
  using runs_for_pos [OF assms(1,2)]
  unfolding mom_result [OF assms(1)] mom_zero_fold [OF assms(3)]
  by (simp add: mom_return_def fsum_def Let_def)

theorem C9_mom_zero_curve_witness:
  "getFuzzySetConsequences (negative_engine exact) = []
   \<and> defuzzifyMOM exact (negative_engine exact) 0 14 (Some 7) = Some ((0 + 7 + 14) / 3)"
  using C9_mom_zero_curve [of exact "Suc (Suc (Suc 0))" 0 14 "Some 7" "negative_engine exact"]
  by (simp add: step_or_default_def runs_exact_0_14_7 visited_exact_0_7
      negative_consequences aggregate_def fsum_def exact_simps)

subsection \<open>InferenceEngine: the FuzzySet consequences\<close>

text \<open>
  C8. \<open>getFuzzySetConsequences\<close> returns exactly the consequence fields of the rules that
  are FuzzySet instances, in the order of the rules. A rule whose consequence is a function
  contributes nothing, whatever the function returns, and a rule whose consequence is a
  FuzzySet contributes that set at its position, whatever its condition and weight.
\<close>

theorem C8_getFuzzySetConsequences:
  "map FixedSet (getFuzzySetConsequences E)
     = filter instanceof_FuzzySet (map consequence (rules E))
   \<and> getFuzzySetConsequences
         \<lparr> rules = before @ [\<lparr> condition = c, consequence = Computed f, weight = w \<rparr>] @ after \<rparr>
       = getFuzzySetConsequences \<lparr> rules = before @ after \<rparr>
   \<and> getFuzzySetConsequences
         \<lparr> rules = before @ [\<lparr> condition = c, consequence = FixedSet F, weight = w \<rparr>] @ after \<rparr>
       = getFuzzySetConsequences \<lparr> rules = before \<rparr> @ [F]
           @ getFuzzySetConsequences \<lparr> rules = after \<rparr>"
  by (simp add: consequences_filter consequences_append consequences_Cons consequences_Nil)

theorem C8_getFuzzySetConsequences_witness:
  "map FixedSet (getFuzzySetConsequences (other_engine exact))
     = [FixedSet (urgentSet exact) :: (real, unit) consequence]"
  using C8_getFuzzySetConsequences [of "other_engine exact", THEN conjunct1]
  by (simp add: other_engine_def new_FuzzyRule_def)

subsection \<open>InferenceEngine: what the defuzzifiers depend on\<close>

text \<open>
  C10. If the FuzzySet consequences of two engines have the same membership functions, in
  the same order, then \<open>defuzzifyCentroid\<close>, \<open>defuzzifyMOM\<close> and \<open>defuzzifyBisector\<close>
  agree on the two engines for every \<open>min\<close>, \<open>max\<close> and \<open>step\<close>, whatever the conditions,
  the weights and the function-valued consequences of the rules are (and whatever the input
  types of the two engines). This includes the runs that do not return, and it holds in
  every arithmetic.
\<close>

theorem C10_defuzzify_depends_on_sets_only:
  assumes "map membershipFunction (getFuzzySetConsequences E)
         = map membershipFunction (getFuzzySetConsequences E')"
  shows "defuzzifyCentroid A E mn mx step = defuzzifyCentroid A E' mn mx step
       \<and> defuzzifyMOM A E mn mx step = defuzzifyMOM A E' mn mx step
       \<and> defuzzifyBisector A E mn mx step = defuzzifyBisector A E' mn mx step"
proof -
  have agg: "aggregate A (getFuzzySetConsequences E) = aggregate A (getFuzzySetConsequences E')"
    using assms by (rule aggregate_cong)
  have "defuzzifyCentroid A E mn mx step = defuzzifyCentroid A E' mn mx step"
    unfolding defuzzifyCentroid_def Let_def agg ..
  moreover have "defuzzifyMOM A E mn mx step = defuzzifyMOM A E' mn mx step"
    unfolding defuzzifyMOM_def Let_def agg ..
  moreover have "defuzzifyBisector A E mn mx step = defuzzifyBisector A E' mn mx step"
    unfolding defuzzifyBisector_def Let_def agg ..
  ultimately show ?thesis by simp
qed

theorem C10_defuzzify_depends_on_sets_only_witness:
  "map membershipFunction (getFuzzySetConsequences (example_engine exact))
     = map membershipFunction (getFuzzySetConsequences (other_engine exact))
   \<and> defuzzifyCentroid exact (example_engine exact) 0 14 (Some 7)
       = defuzzifyCentroid exact (other_engine exact) 0 14 (Some 7)
   \<and> defuzzifyMOM exact (example_engine exact) 0 14 (Some 7)
       = defuzzifyMOM exact (other_engine exact) 0 14 (Some 7)
   \<and> defuzzifyBisector exact (example_engine exact) 0 14 (Some 7)
       = defuzzifyBisector exact (other_engine exact) 0 14 (Some 7)
   \<and> defuzzifyCentroid exact (example_engine exact) 0 14 (Some 0)
       = defuzzifyCentroid exact (other_engine exact) 0 14 (Some 0)"
  using C10_defuzzify_depends_on_sets_only
      [of "example_engine exact" "other_engine exact" exact 0 14 "Some 7"]
    C10_defuzzify_depends_on_sets_only
      [of "example_engine exact" "other_engine exact" exact 0 14 "Some 0"]
  by (simp add: example_consequences other_consequences)

end
